theory Spec2Isabelle
  imports Complex_Main
begin

section \<open>The document question tool of the mortgage crew (PDFQATool.py)\<close>

text \<open>
  The tool's \<^verbatim>\<open>_run\<close> reads the API key from the process environment, walks over the
  references it was given, uploads the local ones, and sends one chat request. Everything
  it touches outside its own frame (the environment, the file system, the provider's
  three endpoints, the URL parser of the standard library) is a field of the record
  \<open>env\<close>; every call it makes is appended to a trace of events, and each external
  function sees the trace so far, so its answer may depend on the whole history.
\<close>

subsection \<open>String functions of the Python library\<close>

type_synonym bytes = string

text \<open>
  \<^verbatim>\<open>str.lower\<close> on ASCII. (No character outside ASCII lowers to a letter of one of the
  four supported extensions, so membership in the allow-list is decided by the ASCII part.)
\<close>

definition lower_char :: "char \<Rightarrow> char" where
  "lower_char c =
     (case map_of (zip ''ABCDEFGHIJKLMNOPQRSTUVWXYZ'' ''abcdefghijklmnopqrstuvwxyz'') c of
        None \<Rightarrow> c
      | Some l \<Rightarrow> l)"

definition lower :: "string \<Rightarrow> string" where
  "lower s = map lower_char s"

text \<open>\<^verbatim>\<open>s.rfind(c)\<close>: the highest index of \<open>c\<close> in \<open>s\<close>, or \<open>-1\<close>.\<close>

fun rfind :: "string \<Rightarrow> char \<Rightarrow> int" where
  "rfind [] c = - 1"
| "rfind (x # xs) c =
     (let r = rfind xs c in if 0 \<le> r then r + 1 else if x = c then 0 else - 1)"

text \<open>\<^verbatim>\<open>s.find(c)\<close>: the lowest index of \<open>c\<close> in \<open>s\<close>, or \<open>-1\<close>.\<close>

fun find_chr :: "string \<Rightarrow> char \<Rightarrow> int" where
  "find_chr [] c = - 1"
| "find_chr (x # xs) c =
     (if x = c then 0 else (let r = find_chr xs c in if 0 \<le> r then r + 1 else - 1))"

text \<open>\<^verbatim>\<open>sep.join(xs)\<close>.\<close>

fun join :: "string \<Rightarrow> string list \<Rightarrow> string" where
  "join sep [] = []"
| "join sep [x] = x"
| "join sep (x # y # ys) = x @ sep @ join sep (y # ys)"

text \<open>
  \<^verbatim>\<open>os.path.splitext\<close> and \<^verbatim>\<open>os.path.basename\<close> of posixpath (separator \<open>/\<close>).
  \<open>splitext_scan\<close> is the while loop of \<^verbatim>\<open>genericpath._splitext\<close> that skips the leading
  dots of the final component: it answers whether the loop returns from inside, that is,
  whether a character other than a dot stands between the two indices.
\<close>

function splitext_scan :: "string \<Rightarrow> int \<Rightarrow> int \<Rightarrow> bool" where
  "splitext_scan p filenameIndex dotIndex =
     (if filenameIndex < dotIndex
      then (if take 1 (drop (nat filenameIndex) p) \<noteq> ''.'' then True
            else splitext_scan p (filenameIndex + 1) dotIndex)
      else False)"
  by pat_completeness auto
termination
  by (relation "measure (\<lambda>(p, i, d). nat (d - i))") auto

declare splitext_scan.simps [simp del]

definition splitext :: "string \<Rightarrow> string \<times> string" where
  "splitext p =
     (let sepIndex = rfind p (CHR ''/'');
          dotIndex = rfind p (CHR ''.'')
      in if dotIndex > sepIndex \<and> splitext_scan p (sepIndex + 1) dotIndex
         then (take (nat dotIndex) p, drop (nat dotIndex) p)
         else (p, []))"

definition basename :: "string \<Rightarrow> string" where
  "basename p = drop (nat (rfind p (CHR ''/'') + 1)) p"

subsection \<open>Data\<close>

text \<open>
  The exceptions that can leave \<^verbatim>\<open>_run\<close>. The two that \<^verbatim>\<open>_run\<close> raises itself are
  both \<^verbatim>\<open>ValueError\<close>, told apart by their message; \<open>IndexError\<close> is the failure of
  \<^verbatim>\<open>choices[0]\<close>; \<open>ValidationError\<close> is what the input schema raises. \<open>OSError\<close> and
  \<open>SDKError\<close> stand for whatever \<^verbatim>\<open>open\<close>/\<^verbatim>\<open>read\<close> and the provider's client raise.
\<close>

datatype error =
    ValueError string
  | IndexError string
  | ValidationError string
  | OSError string
  | SDKError string

text \<open>The two fields of \<^verbatim>\<open>urlparse\<close>'s result that the tool reads.\<close>

record parse_result =
  scheme :: string
  path :: string

text \<open>
  A content chunk: the dictionaries \<^verbatim>\<open>{"type": "text", "text": ...}\<close>,
  \<^verbatim>\<open>{"type": "document_url", "document_url": ...}\<close> and
  \<^verbatim>\<open>{"type": "image_url", "image_url": ...}\<close>.
\<close>

datatype chunk =
    Text string
  | Document_url string
  | Image_url string

record message =
  role :: string
  content :: "chunk list"

record chat_request =
  model :: string
  messages :: "message list"
  temperature :: real

text \<open>The response of the completion endpoint: the message content of each choice.\<close>

record chat_response =
  choices :: "string list"

text \<open>The calls that leave the process, with their arguments, in the order they are made.\<close>

datatype event =
    Open_read string
  | Files_upload string bytes string
  | Files_get_signed_url string
  | Chat_complete chat_request

record env =
  getenv :: "string \<Rightarrow> string option"
  urlparse :: "string \<Rightarrow> error + parse_result"
  iter_rank :: "string \<Rightarrow> nat"
  open_read :: "event list \<Rightarrow> string \<Rightarrow> error + bytes"
  files_upload :: "event list \<Rightarrow> string \<Rightarrow> bytes \<Rightarrow> string \<Rightarrow> error + string"
  files_get_signed_url :: "event list \<Rightarrow> string \<Rightarrow> error + string"
  chat_complete :: "event list \<Rightarrow> chat_request \<Rightarrow> error + chat_response"

text \<open>
  \<open>getenv\<close> is \<^verbatim>\<open>os.getenv\<close> (after \<^verbatim>\<open>load_dotenv\<close>); \<open>urlparse\<close> is the parser of
  \<^verbatim>\<open>urllib.parse\<close>, which returns a result or raises; \<open>iter_rank\<close> ranks strings by the
  place they take when a set of strings is iterated (Python does not fix that order, it
  follows the hashes of the process); \<open>open_read\<close> is \<^verbatim>\<open>open(path, "rb")\<close> followed by
  \<^verbatim>\<open>read()\<close>; \<open>files_upload\<close> takes the file name, the content and the purpose and
  returns the \<^verbatim>\<open>id\<close> of the response; \<open>files_get_signed_url\<close> takes the file id and
  returns the \<^verbatim>\<open>url\<close> of the response; \<open>chat_complete\<close> is \<^verbatim>\<open>client.chat.complete\<close>.
\<close>

subsection \<open>The tool\<close>

definition supported_extensions :: "string set" where
  "supported_extensions = {''.pdf'', ''.jpg'', ''.jpeg'', ''.png''}"

text \<open>
  The order in which \<^verbatim>\<open>', '.join(supported_extensions)\<close> meets the four members of the set:
  the members of the literal, arranged by the rank the environment gives them.
\<close>

definition iter_supported :: "env \<Rightarrow> string list" where
  "iter_supported w = sort_key (iter_rank w) [''.pdf'', ''.jpg'', ''.jpeg'', ''.png'']"

definition missing_key_message :: string where
  "missing_key_message = ''MISTRAL_API_KEY must be set in the environment''"

definition unsupported_message :: "env \<Rightarrow> string \<Rightarrow> string" where
  "unsupported_message w ext =
     ''Unsupported file type: '' @ ext @ ''. Supported types: '' @ join '', '' (iter_supported w)"

text \<open>\<^verbatim>\<open>parsed.scheme in ("http", "https")\<close>.\<close>

definition is_url :: "parse_result \<Rightarrow> bool" where
  "is_url parsed = (scheme parsed = ''http'' \<or> scheme parsed = ''https'')"

text \<open>The extension, lines 45 to 50.\<close>

definition ext_of :: "parse_result \<Rightarrow> string \<Rightarrow> string" where
  "ext_of parsed p =
     (if is_url parsed then lower (snd (splitext (path parsed)))
      else lower (snd (splitext p)))"

text \<open>
  Lines 60 to 70: read the local file, upload it, ask for a signed URL. The first failing
  call ends the run with its exception; the call itself is in the trace.
\<close>

definition upload_local :: "env \<Rightarrow> event list \<Rightarrow> string \<Rightarrow> (error + string) \<times> event list" where
  "upload_local w tr p =
     (let tr1 = tr @ [Open_read p] in
      case open_read w tr p of
        Inl e \<Rightarrow> (Inl e, tr1)
      | Inr file_content \<Rightarrow>
          (let tr2 = tr1 @ [Files_upload (basename p) file_content ''ocr''] in
           case files_upload w tr1 (basename p) file_content ''ocr'' of
             Inl e \<Rightarrow> (Inl e, tr2)
           | Inr file_id \<Rightarrow>
               (let tr3 = tr2 @ [Files_get_signed_url file_id] in
                case files_get_signed_url w tr2 file_id of
                  Inl e \<Rightarrow> (Inl e, tr3)
                | Inr url \<Rightarrow> (Inr url, tr3))))"

text \<open>The body of the loop, lines 43 to 82, for one reference.\<close>

definition process_path :: "env \<Rightarrow> event list \<Rightarrow> string \<Rightarrow> (error + chunk) \<times> event list" where
  "process_path w tr p =
     (case urlparse w p of
        Inl e \<Rightarrow> (Inl e, tr)
      | Inr parsed \<Rightarrow>
          (let ext = ext_of parsed p in
           if ext \<notin> supported_extensions
           then (Inl (ValueError (unsupported_message w ext)), tr)
           else
             (case (if is_url parsed then (Inr p, tr) else upload_local w tr p) of
                (Inl e, tr') \<Rightarrow> (Inl e, tr')
              | (Inr url_ref, tr') \<Rightarrow>
                  (Inr (if ext = ''.pdf'' then Document_url url_ref else Image_url url_ref),
                   tr'))))"

text \<open>The loop over \<^verbatim>\<open>paths\<close>, with the chunks and the trace collected so far.\<close>

fun loop :: "env \<Rightarrow> string list \<Rightarrow> chunk list \<Rightarrow> event list \<Rightarrow> (error + chunk list) \<times> event list" where
  "loop w [] content_chunks tr = (Inr content_chunks, tr)"
| "loop w (p # ps) content_chunks tr =
     (case process_path w tr p of
        (Inl e, tr') \<Rightarrow> (Inl e, tr')
      | (Inr c, tr') \<Rightarrow> loop w ps (content_chunks @ [c]) tr')"

definition request_of :: "chunk list \<Rightarrow> chat_request" where
  "request_of content_chunks =
     \<lparr>model = ''mistral-medium-latest'',
      messages = [\<lparr>role = ''user'', content = content_chunks\<rparr>],
      temperature = 0\<rparr>"

text \<open>
  \<^verbatim>\<open>PDFQATool._run\<close>. \<^verbatim>\<open>not api_key\<close> holds for a missing variable and for the empty
  string. Building the client object makes no call. The result is the returned string or
  the exception, together with the trace of the calls made.
\<close>

definition run :: "env \<Rightarrow> string list \<Rightarrow> string \<Rightarrow> (error + string) \<times> event list" where
  "run w paths question =
     (case getenv w ''MISTRAL_API_KEY'' of
        None \<Rightarrow> (Inl (ValueError missing_key_message), [])
      | Some api_key \<Rightarrow>
          if api_key = [] then (Inl (ValueError missing_key_message), [])
          else
            (case loop w paths [Text question] [] of
               (Inl e, tr) \<Rightarrow> (Inl e, tr)
             | (Inr content_chunks, tr) \<Rightarrow>
                 (let req = request_of content_chunks;
                      tr' = tr @ [Chat_complete req]
                  in case chat_complete w tr req of
                       Inl e \<Rightarrow> (Inl e, tr')
                     | Inr chat_resp \<Rightarrow>
                         (case choices chat_resp of
                            [] \<Rightarrow> (Inl (IndexError ''list index out of range''), tr')
                          | c # _ \<Rightarrow> (Inr c, tr')))))"

subsection \<open>The input schema and the tool object\<close>

text \<open>
  \<^verbatim>\<open>PDFQAToolInput\<close>: two required fields; \<^verbatim>\<open>paths\<close> carries \<^verbatim>\<open>max_items=10\<close> and no
  lower bound. Validating the arguments against it fails for more than ten items.
\<close>

definition PDFQAToolInput :: "string list \<Rightarrow> string \<Rightarrow> error + string list \<times> string" where
  "PDFQAToolInput paths question =
     (if length paths > 10 then Inl (ValidationError ''paths'') else Inr (paths, question))"

text \<open>
  The tool as the agent framework calls it: the arguments are validated against
  \<^verbatim>\<open>args_schema\<close>, then handed to \<^verbatim>\<open>_run\<close>.
\<close>

definition answer :: "env \<Rightarrow> string list \<Rightarrow> string \<Rightarrow> (error + string) \<times> event list" where
  "answer w paths question =
     (case PDFQAToolInput paths question of
        Inl e \<Rightarrow> (Inl e, [])
      | Inr (ps, q) \<Rightarrow> run w ps q)"

text \<open>
  The class \<^verbatim>\<open>PDFQATool\<close> declares three fields with defaults and no initialiser of its
  own, so \<^verbatim>\<open>PDFQATool()\<close>, as \<^verbatim>\<open>MortgageCrew.__init__\<close> calls it, fills in the defaults
  and reads nothing from the environment it runs in.
\<close>

record tool =
  name :: string
  description :: string

definition PDFQATool_init :: "env \<Rightarrow> error + tool" where
  "PDFQATool_init w =
     Inr \<lparr>name = ''PDFQATool'',
          description =
            ''Uploads scanned PDFs or images (JPG, JPEG, PNG) to Mistral, retrieves signed HTTPS URLs, ''
            @ ''and answers a question across all of them in one go.''\<rparr>"

subsection \<open>Reading a trace\<close>

fun opened :: "event list \<Rightarrow> string list" where
  "opened [] = []"
| "opened (Open_read p # tr) = p # opened tr"
| "opened (_ # tr) = opened tr"

fun uploaded :: "event list \<Rightarrow> (string \<times> string) list" where
  "uploaded [] = []"
| "uploaded (Files_upload file_name file_content purpose # tr) = (file_name, purpose) # uploaded tr"
| "uploaded (_ # tr) = uploaded tr"

fun signed :: "event list \<Rightarrow> string list" where
  "signed [] = []"
| "signed (Files_get_signed_url file_id # tr) = file_id # signed tr"
| "signed (_ # tr) = signed tr"

fun chats :: "event list \<Rightarrow> chat_request list" where
  "chats [] = []"
| "chats (Chat_complete req # tr) = req # chats tr"
| "chats (_ # tr) = chats tr"

text \<open>Whether a reference is one that the loop treats as a local file.\<close>

definition is_local :: "env \<Rightarrow> string \<Rightarrow> bool" where
  "is_local w p = (case urlparse w p of Inl e \<Rightarrow> False | Inr parsed \<Rightarrow> \<not> is_url parsed)"

definition local_paths :: "env \<Rightarrow> string list \<Rightarrow> string list" where
  "local_paths w paths = filter (is_local w) paths"

fun chunk_url :: "chunk \<Rightarrow> string" where
  "chunk_url (Text t) = t"
| "chunk_url (Document_url u) = u"
| "chunk_url (Image_url u) = u"

fun is_text :: "chunk \<Rightarrow> bool" where
  "is_text (Text t) = True"
| "is_text _ = False"

text \<open>
  The chunk that a reference contributes, as far as the reference alone decides it: its
  kind follows the extension, and a remote reference is carried verbatim.
\<close>

definition chunk_of :: "env \<Rightarrow> string \<Rightarrow> chunk \<Rightarrow> bool" where
  "chunk_of w p c =
     (case urlparse w p of
        Inl e \<Rightarrow> False
      | Inr parsed \<Rightarrow>
          ext_of parsed p \<in> supported_extensions \<and>
          c = (if ext_of parsed p = ''.pdf'' then Document_url (chunk_url c)
               else Image_url (chunk_url c)) \<and>
          (if is_url parsed then chunk_url c = p else True))"

text \<open>Whether a reference parses and has an extension outside the allow-list.\<close>

definition unsupported :: "env \<Rightarrow> string \<Rightarrow> bool" where
  "unsupported w p =
     (case urlparse w p of
        Inl e \<Rightarrow> False
      | Inr parsed \<Rightarrow> ext_of parsed p \<notin> supported_extensions)"

subsection \<open>An instance of the environment\<close>

text \<open>
  \<open>urlparse_plain\<close> is \<^verbatim>\<open>urllib.parse.urlparse\<close> of CPython 3.12 on references made of
  ASCII characters whose network location has no bracketed host (on such input the checks
  of the host and of its normal form pass). As the library does, it first strips the
  leading characters up to the space and removes every tab, carriage return and line feed.
  The theorems below hold for every behaviour of the parser; this instance serves the
  concrete examples.
\<close>

definition c0_control_or_space :: string where
  "c0_control_or_space =
     [CHR 0x00, CHR 0x01, CHR 0x02, CHR 0x03, CHR 0x04, CHR 0x05, CHR 0x06, CHR 0x07,
      CHR 0x08, CHR 0x09, CHR 0x0A, CHR 0x0B, CHR 0x0C, CHR 0x0D, CHR 0x0E, CHR 0x0F,
      CHR 0x10, CHR 0x11, CHR 0x12, CHR 0x13, CHR 0x14, CHR 0x15, CHR 0x16, CHR 0x17,
      CHR 0x18, CHR 0x19, CHR 0x1A, CHR 0x1B, CHR 0x1C, CHR 0x1D, CHR 0x1E, CHR 0x1F,
      CHR 0x20]"

definition lstrip_c0 :: "string \<Rightarrow> string" where
  "lstrip_c0 url = dropWhile (\<lambda>c. c \<in> set c0_control_or_space) url"

definition remove_unsafe :: "string \<Rightarrow> string" where
  "remove_unsafe url = filter (\<lambda>c. c \<noteq> CHR 0x09 \<and> c \<noteq> CHR 0x0D \<and> c \<noteq> CHR 0x0A) url"

definition scheme_chars :: string where
  "scheme_chars =
     ''abcdefghijklmnopqrstuvwxyz'' @ ''ABCDEFGHIJKLMNOPQRSTUVWXYZ'' @ ''0123456789'' @ ''+-.''"

definition isalpha :: "char \<Rightarrow> bool" where
  "isalpha c = (c \<in> set (''abcdefghijklmnopqrstuvwxyz'' @ ''ABCDEFGHIJKLMNOPQRSTUVWXYZ''))"

definition uses_params :: "string list" where
  "uses_params =
     ['''', ''ftp'', ''hdl'', ''prospero'', ''http'', ''imap'', ''https'', ''shttp'', ''rtsp'',
      ''rtsps'', ''rtspu'', ''sip'', ''sips'', ''mms'', ''sftp'', ''tel'']"

text \<open>\<^verbatim>\<open>s.find(c, start)\<close> for a start inside the string.\<close>

definition find_from :: "string \<Rightarrow> char \<Rightarrow> int \<Rightarrow> int" where
  "find_from s c start =
     (let r = find_chr (drop (nat start) s) c in if r < 0 then - 1 else r + max start 0)"

definition splitparams :: "string \<Rightarrow> string \<times> string" where
  "splitparams url =
     (if CHR ''/'' \<in> set url
      then (let i = find_from url (CHR '';'') (rfind url (CHR ''/''))
            in if i < 0 then (url, []) else (take (nat i) url, drop (nat i + 1) url))
      else (let i = find_chr url (CHR '';'')
            in (take (nat i) url, drop (nat i + 1) url)))"

text \<open>\<^verbatim>\<open>_splitnetloc(url, 2)\<close>: the network location ends at the first of \<open>/ ? #\<close>.\<close>

definition splitnetloc :: "string \<Rightarrow> string \<times> string" where
  "splitnetloc url =
     (let netloc = takeWhile (\<lambda>c. c \<noteq> CHR ''/'' \<and> c \<noteq> CHR ''?'' \<and> c \<noteq> CHR ''#'') (drop 2 url)
      in (netloc, drop (2 + length netloc) url))"

definition urlsplit_plain :: "string \<Rightarrow> error + string \<times> string \<times> string" where
  "urlsplit_plain url =
     (let url0 = remove_unsafe (lstrip_c0 url);
          i = find_chr url0 (CHR '':'');
          (sch, url1) =
            (if i > 0 \<and> isalpha (hd url0) \<and> list_all (\<lambda>c. c \<in> set scheme_chars) (take (nat i) url0)
             then (lower (take (nat i) url0), drop (nat i + 1) url0)
             else ([], url0));
          (netloc, url2) = (if take 2 url1 = ''//'' then splitnetloc url1 else ([], url1))
      in if (CHR ''['' \<in> set netloc) \<noteq> (CHR '']'' \<in> set netloc)
         then Inl (ValueError ''Invalid IPv6 URL'')
         else Inr (sch, netloc,
                   takeWhile (\<lambda>c. c \<noteq> CHR ''?'') (takeWhile (\<lambda>c. c \<noteq> CHR ''#'') url2)))"

definition urlparse_plain :: "string \<Rightarrow> error + parse_result" where
  "urlparse_plain url0 =
     (case urlsplit_plain url0 of
        Inl e \<Rightarrow> Inl e
      | Inr (sch, netloc, url) \<Rightarrow>
          Inr \<lparr>scheme = sch,
               path = (if sch \<in> set uses_params \<and> CHR '';'' \<in> set url
                       then fst (splitparams url) else url)\<rparr>)"

text \<open>
  An environment with a key, in which every file can be read, every upload gets an id
  that depends on the number of calls made before it, and the model returns two choices.
\<close>

definition demo_env :: env where
  "demo_env =
     \<lparr>getenv = (\<lambda>n. if n = ''MISTRAL_API_KEY'' then Some ''sk'' else None),
      urlparse = urlparse_plain,
      iter_rank = (\<lambda>s. if s = ''.png'' then 0 else if s = ''.jpg'' then 1
                        else if s = ''.pdf'' then 2 else 3),
      open_read = (\<lambda>tr p. Inr (''bytes of '' @ p)),
      files_upload = (\<lambda>tr file_name file_content purpose. Inr (''id'' @ replicate (length tr) (CHR ''+''))),
      files_get_signed_url = (\<lambda>tr file_id. Inr (''https://s/'' @ file_id)),
      chat_complete = (\<lambda>tr req. Inr \<lparr>choices = [''yes'', ''no'']\<rparr>)\<rparr>"

text \<open>The same environment without the key, with a model that returns no choice, and
  with a completion endpoint that fails.\<close>

definition no_key_env :: env where
  "no_key_env = demo_env\<lparr>getenv := (\<lambda>n. None)\<rparr>"

definition no_choice_env :: env where
  "no_choice_env = demo_env\<lparr>chat_complete := (\<lambda>tr req. Inr \<lparr>choices = []\<rparr>)\<rparr>"

definition failing_chat_env :: env where
  "failing_chat_env = demo_env\<lparr>chat_complete := (\<lambda>tr req. Inl (SDKError ''429 rate limit''))\<rparr>"

section \<open>Properties\<close>

subsection \<open>The extension is that of the final path component\<close>

lemma rfind_lower_bound: "- 1 \<le> rfind s c"
  by (induction s) (auto simp: Let_def)

lemma rfind_upper_bound: "rfind s c < int (length s)"
  by (induction s) (auto simp: Let_def)

lemma rfind_negative_iff: "rfind s c < 0 \<longleftrightarrow> c \<notin> set s"
  by (induction s) (auto simp: Let_def)

lemma rfind_drop:
  "rfind (drop n s) c = (if int n \<le> rfind s c then rfind s c - int n else - 1)"
proof (induction s arbitrary: n)
  case Nil
  then show ?case by simp
next
  case (Cons x xs)
  show ?case
  proof (cases n)
    case 0
    then show ?thesis using rfind_lower_bound [of "x # xs" c] by auto
  next
    case (Suc m)
    then show ?thesis using Cons.IH [of m] by (auto simp: Let_def)
  qed
qed

lemma splitext_scan_shift:
  "0 \<le> i \<Longrightarrow> splitext_scan (drop n p) i d = splitext_scan p (i + int n) (d + int n)"
proof (induction "drop n p" i d rule: splitext_scan.induct)
  case (1 i d)
  have idx: "nat (i + int n) = nat i + n" using "1.prems" by (simp add: nat_add_distrib)
  have same: "take 1 (drop (nat i) (drop n p)) = take 1 (drop (nat (i + int n)) p)"
    by (simp add: idx add.commute)
  show ?case
  proof (cases "i < d")
    case False
    then show ?thesis by (simp add: splitext_scan.simps)
  next
    case True
    show ?thesis
    proof (cases "take 1 (drop (nat i) (drop n p)) \<noteq> ''.''")
      case True
      with \<open>i < d\<close> same show ?thesis
        by (subst splitext_scan.simps, subst (2) splitext_scan.simps) simp
    next
      case False
      then have "splitext_scan (drop n p) (i + 1) d = splitext_scan p (i + 1 + int n) (d + int n)"
        using "1.hyps" [OF \<open>i < d\<close>] "1.prems" by simp
      with False \<open>i < d\<close> same show ?thesis
        by (subst splitext_scan.simps, subst (2) splitext_scan.simps) (simp add: add.commute add.left_commute)
    qed
  qed
qed

lemma splitext_basename: "snd (splitext (basename p)) = snd (splitext p)"
proof -
  define sep where "sep = rfind p (CHR ''/'')"
  define dot where "dot = rfind p (CHR ''.'')"
  define n where "n = nat (sep + 1)"
  have n: "int n = sep + 1"
    using rfind_lower_bound [of p "CHR ''/''"] by (simp add: n_def sep_def)
  have b: "basename p = drop n p" by (simp add: basename_def n_def sep_def)
  have sep': "rfind (drop n p) (CHR ''/'') = - 1"
    using n by (simp add: rfind_drop sep_def)
  have dot': "rfind (drop n p) (CHR ''.'') = (if sep < dot then dot - sep - 1 else - 1)"
    using n by (auto simp: rfind_drop dot_def)
  show ?thesis
  proof (cases "sep < dot")
    case False
    then show ?thesis
      by (simp add: b splitext_def sep' dot' Let_def sep_def [symmetric] dot_def [symmetric])
  next
    case True
    have scan: "splitext_scan (drop n p) 0 (dot - sep - 1) = splitext_scan p (sep + 1) dot"
      using splitext_scan_shift [of 0 n p "dot - sep - 1"] n by simp
    have idx: "nat (dot - sep - 1) + n = nat dot"
      using True n rfind_lower_bound [of p "CHR ''/''"] by (simp add: sep_def)
    from True show ?thesis
      by (simp add: b splitext_def sep' dot' Let_def sep_def [symmetric] dot_def [symmetric] scan idx)
  qed
qed

subsection \<open>Traces of the loop\<close>

lemma opened_append: "opened (a @ b) = opened a @ opened b"
  by (induction a rule: opened.induct) simp_all

lemma uploaded_append: "uploaded (a @ b) = uploaded a @ uploaded b"
  by (induction a rule: uploaded.induct) simp_all

lemma signed_append: "signed (a @ b) = signed a @ signed b"
  by (induction a rule: signed.induct) simp_all

lemma chats_append: "chats (a @ b) = chats a @ chats b"
  by (induction a rule: chats.induct) simp_all

lemma upload_local_success:
  assumes "upload_local w tr p = (Inr url, tr')"
  shows "\<exists>file_content file_id.
           open_read w tr p = Inr file_content \<and>
           files_upload w (tr @ [Open_read p]) (basename p) file_content ''ocr'' = Inr file_id \<and>
           files_get_signed_url w
             (tr @ [Open_read p, Files_upload (basename p) file_content ''ocr'']) file_id = Inr url \<and>
           tr' = tr @ [Open_read p, Files_upload (basename p) file_content ''ocr'',
                       Files_get_signed_url file_id]"
  using assms by (simp add: upload_local_def Let_def split: sum.splits)

lemma upload_local_chats: "upload_local w tr p = (r, tr') \<Longrightarrow> chats tr' = chats tr"
  by (auto simp: upload_local_def Let_def chats_append split: sum.splits)


lemma process_path_cases:
  "process_path w tr p =
     (case urlparse w p of
        Inl e \<Rightarrow> (Inl e, tr)
      | Inr parsed \<Rightarrow>
          if ext_of parsed p \<notin> supported_extensions
          then (Inl (ValueError (unsupported_message w (ext_of parsed p))), tr)
          else if is_url parsed
          then (Inr (if ext_of parsed p = ''.pdf'' then Document_url p else Image_url p), tr)
          else (case upload_local w tr p of
                  (Inl e, tr') \<Rightarrow> (Inl e, tr')
                | (Inr url_ref, tr') \<Rightarrow>
                    (Inr (if ext_of parsed p = ''.pdf'' then Document_url url_ref
                          else Image_url url_ref), tr')))"
  by (simp add: process_path_def Let_def split: sum.split)

lemma process_path_chats: "process_path w tr p = (r, tr') \<Longrightarrow> chats tr' = chats tr"
proof (cases "urlparse w p")
  case (Inl e)
  assume "process_path w tr p = (r, tr')"
  with Inl show ?thesis by (simp add: process_path_cases)
next
  case (Inr parsed)
  assume a: "process_path w tr p = (r, tr')"
  show ?thesis
  proof (cases "ext_of parsed p \<notin> supported_extensions \<or> is_url parsed")
    case True
    with a Inr show ?thesis by (auto simp: process_path_cases split: if_splits)
  next
    case False
    obtain r0 tr0 where u: "upload_local w tr p = (r0, tr0)" by (cases "upload_local w tr p")
    from a Inr False u have "tr' = tr0" by (cases r0) (simp_all add: process_path_cases)
    with upload_local_chats [OF u] show ?thesis by simp
  qed
qed

lemma process_path_success:
  assumes "process_path w tr p = (Inr c, tr')"
  shows "\<exists>parsed. urlparse w p = Inr parsed \<and> ext_of parsed p \<in> supported_extensions \<and>
           c = (if ext_of parsed p = ''.pdf'' then Document_url (chunk_url c) else Image_url (chunk_url c)) \<and>
           (if is_url parsed then tr' = tr \<and> chunk_url c = p
            else upload_local w tr p = (Inr (chunk_url c), tr'))"
proof (cases "urlparse w p")
  case (Inl e)
  with assms show ?thesis by (simp add: process_path_cases)
next
  case (Inr parsed)
  with assms have ok: "ext_of parsed p \<in> supported_extensions"
    by (auto simp: process_path_cases split: if_splits)
  show ?thesis
  proof (cases "is_url parsed")
    case True
    with assms Inr ok show ?thesis by (auto simp: process_path_cases split: if_splits)
  next
    case False
    obtain r0 tr0 where u: "upload_local w tr p = (r0, tr0)" by (cases "upload_local w tr p")
    from assms Inr ok False u show ?thesis
      by (cases r0) (auto simp: process_path_cases split: if_splits)
  qed
qed


lemma loop_Cons_success:
  assumes "loop w (p # ps) cs tr = (Inr cs', tr')"
  obtains c tr1 where "process_path w tr p = (Inr c, tr1)"
    and "loop w ps (cs @ [c]) tr1 = (Inr cs', tr')"
proof -
  obtain r0 tr0 where s: "process_path w tr p = (r0, tr0)" by (cases "process_path w tr p")
  show thesis
  proof (cases r0)
    case (Inl e)
    with assms s show ?thesis by simp
  next
    case (Inr c)
    with assms s that show ?thesis by simp
  qed
qed

lemma loop_chats: "loop w ps cs tr = (r, tr') \<Longrightarrow> chats tr' = chats tr"
proof (induction ps arbitrary: cs tr)
  case Nil
  then show ?case by simp
next
  case (Cons p ps)
  obtain r0 tr0 where s: "process_path w tr p = (r0, tr0)" by (cases "process_path w tr p")
  note c = process_path_chats [OF s]
  show ?case
  proof (cases r0)
    case (Inl e)
    with Cons.prems s c show ?thesis by simp
  next
    case (Inr x)
    with Cons.prems s have "loop w ps (cs @ [x]) tr0 = (r, tr')" by simp
    from Cons.IH [OF this] c show ?thesis by simp
  qed
qed

lemma loop_append:
  "loop w (xs @ ys) cs tr =
     (case loop w xs cs tr of
        (Inl e, tr') \<Rightarrow> (Inl e, tr')
      | (Inr cs', tr') \<Rightarrow> loop w ys cs' tr')"
proof (induction xs arbitrary: cs tr)
  case Nil
  then show ?case by simp
next
  case (Cons p ps)
  obtain r0 tr0 where s: "process_path w tr p = (r0, tr0)" by (cases "process_path w tr p")
  show ?case
  proof (cases r0)
    case (Inl e)
    with s show ?thesis by simp
  next
    case (Inr x)
    with s Cons.IH [of "cs @ [x]" tr0] show ?thesis by simp
  qed
qed

lemma process_path_success_trace:
  assumes "process_path w tr p = (Inr c, tr')"
  shows "opened tr' = opened tr @ local_paths w [p] \<and>
         uploaded tr' = uploaded tr @ map (\<lambda>p. (basename p, ''ocr'')) (local_paths w [p]) \<and>
         length (signed tr') = length (signed tr) + length (local_paths w [p])"
proof -
  from process_path_success [OF assms] obtain parsed where
    u: "urlparse w p = Inr parsed" and
    k: "if is_url parsed then tr' = tr \<and> chunk_url c = p
        else upload_local w tr p = (Inr (chunk_url c), tr')"
    by blast
  show ?thesis
  proof (cases "is_url parsed")
    case True
    with u k show ?thesis by (simp add: local_paths_def is_local_def)
  next
    case False
    with k have "upload_local w tr p = (Inr (chunk_url c), tr')" by simp
    from upload_local_success [OF this] obtain file_content file_id where
      "tr' = tr @ [Open_read p, Files_upload (basename p) file_content ''ocr'',
                   Files_get_signed_url file_id]"
      by blast
    with False u show ?thesis
      by (simp add: local_paths_def is_local_def opened_append uploaded_append signed_append)
  qed
qed

lemma local_paths_Cons: "local_paths w (p # ps) = local_paths w [p] @ local_paths w ps"
  by (simp add: local_paths_def)

lemma loop_success_trace:
  "loop w ps cs tr = (Inr cs', tr') \<Longrightarrow>
     opened tr' = opened tr @ local_paths w ps \<and>
     uploaded tr' = uploaded tr @ map (\<lambda>p. (basename p, ''ocr'')) (local_paths w ps) \<and>
     length (signed tr') = length (signed tr) + length (local_paths w ps)"
proof (induction ps arbitrary: cs tr)
  case Nil
  then show ?case by (simp add: local_paths_def)
next
  case (Cons p ps)
  from Cons.prems obtain c tr1 where
    step: "process_path w tr p = (Inr c, tr1)" and
    rest: "loop w ps (cs @ [c]) tr1 = (Inr cs', tr')"
    by (rule loop_Cons_success)
  from process_path_success_trace [OF step] Cons.IH [OF rest] show ?case
    by (simp add: local_paths_Cons [of w p ps])
qed

subsection \<open>The credential\<close>

lemma run_without_key:
  assumes "getenv w ''MISTRAL_API_KEY'' = None \<or> getenv w ''MISTRAL_API_KEY'' = Some []"
  shows "run w paths q = (Inl (ValueError missing_key_message), [])"
  using assms by (auto simp: run_def)

lemma answer_within_schema:
  "length paths \<le> 10 \<Longrightarrow> answer w paths q = run w paths q"
  by (simp add: answer_def PDFQAToolInput_def)

lemma answer_rejects_more_than_ten:
  "10 < length paths \<Longrightarrow> answer w paths q = (Inl (ValidationError ''paths''), [])"
  by (simp add: answer_def PDFQAToolInput_def)

subsection \<open>The shape of a run\<close>

lemma process_path_chunk_of: "process_path w tr p = (Inr c, tr') \<Longrightarrow> chunk_of w p c"
proof -
  assume "process_path w tr p = (Inr c, tr')"
  from process_path_success [OF this] obtain parsed where
    "urlparse w p = Inr parsed" "ext_of parsed p \<in> supported_extensions"
    "c = (if ext_of parsed p = ''.pdf'' then Document_url (chunk_url c) else Image_url (chunk_url c))"
    "if is_url parsed then tr' = tr \<and> chunk_url c = p
     else upload_local w tr p = (Inr (chunk_url c), tr')"
    by blast
  then show ?thesis by (cases "is_url parsed") (simp_all add: chunk_of_def)
qed

lemma chunk_of_not_text: "chunk_of w p c \<Longrightarrow> \<not> is_text c"
proof (cases "urlparse w p")
  case (Inl e)
  assume "chunk_of w p c"
  with Inl show ?thesis by (simp add: chunk_of_def)
next
  case (Inr parsed)
  assume "chunk_of w p c"
  with Inr have "c = Document_url (chunk_url c) \<or> c = Image_url (chunk_url c)"
    by (cases "ext_of parsed p = ''.pdf''") (simp_all add: chunk_of_def)
  then show ?thesis by (cases c) auto
qed

lemma loop_success_chunks:
  "loop w ps cs tr = (Inr cs', tr') \<Longrightarrow> \<exists>new. cs' = cs @ new \<and> list_all2 (chunk_of w) ps new"
proof (induction ps arbitrary: cs tr)
  case Nil
  then show ?case by simp
next
  case (Cons p ps)
  from Cons.prems obtain c tr1 where
    step: "process_path w tr p = (Inr c, tr1)" and
    rest: "loop w ps (cs @ [c]) tr1 = (Inr cs', tr')"
    by (rule loop_Cons_success)
  from Cons.IH [OF rest] obtain new where
    n: "cs' = (cs @ [c]) @ new" "list_all2 (chunk_of w) ps new"
    by blast
  have "cs' = cs @ (c # new) \<and> list_all2 (chunk_of w) (p # ps) (c # new)"
    using n process_path_chunk_of [OF step] by simp
  then show ?case by blast
qed

lemma run_with_key:
  assumes "getenv w ''MISTRAL_API_KEY'' = Some k" and "k \<noteq> []"
  shows "run w paths q =
           (case loop w paths [Text q] [] of
              (Inl e, tr) \<Rightarrow> (Inl e, tr)
            | (Inr cs, tr) \<Rightarrow>
                (case chat_complete w tr (request_of cs) of
                   Inl e \<Rightarrow> (Inl e, tr @ [Chat_complete (request_of cs)])
                 | Inr chat_resp \<Rightarrow>
                     (case choices chat_resp of
                        [] \<Rightarrow> (Inl (IndexError ''list index out of range''),
                               tr @ [Chat_complete (request_of cs)])
                      | c # rest \<Rightarrow> (Inr c, tr @ [Chat_complete (request_of cs)]))))"
proof -
  obtain r0 tr0 where l: "loop w paths [Text q] [] = (r0, tr0)"
    by (cases "loop w paths [Text q] []")
  show ?thesis
  proof (cases r0)
    case (Inl e)
    with assms l show ?thesis by (simp add: run_def)
  next
    case (Inr cs)
    with assms l show ?thesis by (simp add: run_def Let_def)
  qed
qed

lemma run_success:
  assumes "run w paths q = (Inr a, tr)"
  obtains k cs tr0 resp rest where
    "getenv w ''MISTRAL_API_KEY'' = Some k" and "k \<noteq> []" and
    "loop w paths [Text q] [] = (Inr cs, tr0)" and
    "chat_complete w tr0 (request_of cs) = Inr resp" and "choices resp = a # rest" and
    "tr = tr0 @ [Chat_complete (request_of cs)]"
proof -
  obtain k where k: "getenv w ''MISTRAL_API_KEY'' = Some k" "k \<noteq> []"
  proof (cases "getenv w ''MISTRAL_API_KEY''")
    case None
    with assms run_without_key [of w paths q] show ?thesis by simp
  next
    case (Some k)
    with assms run_without_key [of w paths q] that show ?thesis by (cases "k = []") simp_all
  qed
  note r = run_with_key [OF k, of paths q]
  obtain r0 tr0 where l: "loop w paths [Text q] [] = (r0, tr0)"
    by (cases "loop w paths [Text q] []")
  show thesis
  proof (cases r0)
    case (Inl e)
    with assms r l show ?thesis by simp
  next
    case (Inr cs)
    show ?thesis
    proof (cases "chat_complete w tr0 (request_of cs)")
      case (Inl e)
      with assms r l \<open>r0 = Inr cs\<close> show ?thesis by simp
    next
      case r2: (Inr resp)
      show ?thesis
      proof (cases "choices resp")
        case Nil
        with assms r l \<open>r0 = Inr cs\<close> r2 show ?thesis by simp
      next
        case (Cons c rest)
        with assms r l \<open>r0 = Inr cs\<close> r2 have "c = a" "tr = tr0 @ [Chat_complete (request_of cs)]"
          by simp_all
        with that [OF k] l \<open>r0 = Inr cs\<close> r2 Cons show ?thesis by simp
      qed
    qed
  qed
qed

lemmas demo_eval =
  run_def demo_env_def process_path_def urlparse_plain_def urlsplit_plain_def ext_of_def
  is_url_def splitext_def splitext_scan.simps lower_def lower_char_def upload_local_def
  basename_def supported_extensions_def unsupported_message_def isalpha_def scheme_chars_def
  uses_params_def Let_def splitnetloc_def splitparams_def find_from_def
  iter_supported_def lstrip_c0_def remove_unsafe_def c0_control_or_space_def

lemma count_list_filter:
  "count_list (filter P xs) x = (if P x then count_list xs x else 0)"
  by (induction xs) auto

lemma run_success_shape:
  assumes "run w paths q = (Inr a, tr)"
  obtains cs tr0 where
    "loop w paths [Text q] [] = (Inr (Text q # cs), tr0)" and
    "tr = tr0 @ [Chat_complete (request_of (Text q # cs))]" and
    "chats tr0 = []" and "list_all2 (chunk_of w) paths cs"
proof -
  from assms obtain cs0 tr0 where
    l: "loop w paths [Text q] [] = (Inr cs0, tr0)" and
    t: "tr = tr0 @ [Chat_complete (request_of cs0)]"
    by (rule run_success)
  from loop_success_chunks [OF l] obtain cs where
    c: "cs0 = [Text q] @ cs" "list_all2 (chunk_of w) paths cs" by blast
  from loop_chats [OF l] have "chats tr0 = []" by simp
  with that [of cs tr0] l t c show thesis by simp
qed

lemma upload_local_extends: "upload_local w tr p = (r, tr') \<Longrightarrow> \<exists>evs. tr' = tr @ evs"
  by (auto simp: upload_local_def Let_def split: sum.splits)

lemma process_path_extends: "process_path w tr p = (r, tr') \<Longrightarrow> \<exists>evs. tr' = tr @ evs"
proof (cases "urlparse w p")
  case (Inl e)
  assume "process_path w tr p = (r, tr')"
  with Inl show ?thesis by (simp add: process_path_cases)
next
  case (Inr parsed)
  assume a: "process_path w tr p = (r, tr')"
  show ?thesis
  proof (cases "ext_of parsed p \<notin> supported_extensions \<or> is_url parsed")
    case True
    with a Inr show ?thesis by (auto simp: process_path_cases split: if_splits)
  next
    case False
    obtain r0 tr0 where u: "upload_local w tr p = (r0, tr0)" by (cases "upload_local w tr p")
    from a Inr False u have "tr' = tr0" by (cases r0) (simp_all add: process_path_cases)
    with upload_local_extends [OF u] show ?thesis by simp
  qed
qed

lemma loop_extends: "loop w ps cs tr = (r, tr') \<Longrightarrow> \<exists>evs. tr' = tr @ evs"
proof (induction ps arbitrary: cs tr)
  case Nil
  then show ?case by simp
next
  case (Cons p ps)
  obtain r0 tr0 where s: "process_path w tr p = (r0, tr0)" by (cases "process_path w tr p")
  from process_path_extends [OF s] obtain evs where e: "tr0 = tr @ evs" ..
  show ?case
  proof (cases r0)
    case (Inl x)
    with Cons.prems s e show ?thesis by auto
  next
    case (Inr x)
    with Cons.prems s have "loop w ps (cs @ [x]) tr0 = (r, tr')" by simp
    from Cons.IH [OF this] e show ?thesis by auto
  qed
qed

lemma loop_split:
  assumes "loop w paths cs0 tr0 = (Inr cs', tr')" and "i < length paths"
  obtains cs1 tr1 c tr2 where
    "loop w (take i paths) cs0 tr0 = (Inr cs1, tr1)" and
    "process_path w tr1 (paths ! i) = (Inr c, tr2)" and
    "loop w (drop (Suc i) paths) (cs1 @ [c]) tr2 = (Inr cs', tr')"
proof -
  have p: "paths = take i paths @ (paths ! i # drop (Suc i) paths)"
    using assms(2) by (simp add: id_take_nth_drop)
  obtain r1 tr1 where l1: "loop w (take i paths) cs0 tr0 = (r1, tr1)"
    by (cases "loop w (take i paths) cs0 tr0")
  have whole: "loop w (take i paths @ (paths ! i # drop (Suc i) paths)) cs0 tr0 = (Inr cs', tr')"
    using assms(1) p by simp
  show thesis
  proof (cases r1)
    case (Inl e)
    with whole l1 show ?thesis by (simp add: loop_append)
  next
    case (Inr cs1)
    with whole l1 have "loop w (paths ! i # drop (Suc i) paths) cs1 tr1 = (Inr cs', tr')"
      by (simp add: loop_append)
    then obtain c tr2 where
      "process_path w tr1 (paths ! i) = (Inr c, tr2)"
      "loop w (drop (Suc i) paths) (cs1 @ [c]) tr2 = (Inr cs', tr')"
      by (rule loop_Cons_success)
    with that l1 Inr show ?thesis by simp
  qed
qed

lemma loop_fails_on_unsupported:
  "p \<in> set ps \<Longrightarrow> unsupported w p \<Longrightarrow> \<exists>e tr'. loop w ps cs tr = (Inl e, tr')"
proof (induction ps arbitrary: cs tr)
  case Nil
  then show ?case by simp
next
  case (Cons x xs)
  obtain r0 tr0 where s: "process_path w tr x = (r0, tr0)" by (cases "process_path w tr x")
  show ?case
  proof (cases r0)
    case (Inl e)
    with s show ?thesis by simp
  next
    case (Inr c)
    with s have "process_path w tr x = (Inr c, tr0)" by simp
    from process_path_success [OF this] have "\<not> unsupported w x"
      by (auto simp: unsupported_def)
    with Cons.prems have "p \<in> set xs" by auto
    from Cons.IH [OF this Cons.prems(2), of "cs @ [c]" tr0] s Inr show ?thesis by simp
  qed
qed

lemma run_fails_on_unsupported:
  assumes "p \<in> set paths" and "unsupported w p"
  shows "(\<exists>e. fst (run w paths q) = Inl e) \<and> chats (snd (run w paths q)) = []"
proof (cases "getenv w ''MISTRAL_API_KEY'' = None \<or> getenv w ''MISTRAL_API_KEY'' = Some []")
  case True
  from run_without_key [OF this, of paths q] show ?thesis by simp
next
  case False
  then obtain k where k: "getenv w ''MISTRAL_API_KEY'' = Some k" "k \<noteq> []" by auto
  from loop_fails_on_unsupported [OF assms, of "[Text q]" "[]"] obtain e tr' where
    l: "loop w paths [Text q] [] = (Inl e, tr')" by blast
  from loop_chats [OF l] have "chats tr' = []" by simp
  with run_with_key [OF k, of paths q] l show ?thesis by simp
qed

lemma iter_supported_allow_list:
  "set (iter_supported w) = {''.pdf'', ''.jpg'', ''.jpeg'', ''.png''} \<and> distinct (iter_supported w)"
  unfolding iter_supported_def set_sort distinct_sort by simp

lemma iter_supported_enumerates_the_set:
  "set (iter_supported w) = supported_extensions \<and> distinct (iter_supported w)"
  unfolding iter_supported_def set_sort distinct_sort supported_extensions_def by simp

section \<open>The claims\<close>

text \<open>
  Claim C4. When the environment holds no key (the variable is unset or empty),
  \<^verbatim>\<open>_run\<close> fails with the \<^verbatim>\<open>ValueError\<close> of the missing key for every batch and every
  question, and its trace is empty: no file has been read and no request sent. The same
  holds for the tool called through its schema, for every batch the schema admits; for a
  batch the schema rejects the trace is empty as well.
\<close>

theorem missing_key_fails_before_io:
  assumes "getenv w ''MISTRAL_API_KEY'' = None \<or> getenv w ''MISTRAL_API_KEY'' = Some []"
  shows "run w paths q = (Inl (ValueError missing_key_message), []) \<and>
         snd (answer w paths q) = [] \<and>
         (length paths \<le> 10 \<longrightarrow> answer w paths q = (Inl (ValueError missing_key_message), []))"
proof -
  have r: "run w paths q = (Inl (ValueError missing_key_message), [])"
    using assms by (rule run_without_key)
  have "snd (answer w paths q) = []"
  proof (cases "length paths \<le> 10")
    case True
    then show ?thesis by (simp add: answer_within_schema r)
  next
    case False
    then show ?thesis by (simp add: answer_rejects_more_than_ten)
  qed
  with r show ?thesis by (simp add: answer_within_schema)
qed

theorem missing_key_fails_before_io_witness:
  "getenv no_key_env ''MISTRAL_API_KEY'' = None \<and>
   run no_key_env [''./a.pdf''] ''q'' =
     (Inl (ValueError ''MISTRAL_API_KEY must be set in the environment''), []) \<and>
   answer no_key_env [''./a.pdf''] ''q'' =
     (Inl (ValueError ''MISTRAL_API_KEY must be set in the environment''), [])"
proof -
  have k: "getenv no_key_env ''MISTRAL_API_KEY'' = None"
    by (simp add: no_key_env_def demo_env_def)
  then have "getenv no_key_env ''MISTRAL_API_KEY'' = None \<or>
             getenv no_key_env ''MISTRAL_API_KEY'' = Some []" by simp
  from missing_key_fails_before_io [OF this, of "[''./a.pdf'']" "''q''"] k
  show ?thesis by (simp add: missing_key_message_def)
qed

text \<open>
  Claim C5. In every run that returns an answer, the last call is the chat request, and
  the content of its one user message is the text chunk of the question followed by one
  chunk per reference, in the order of the batch: the chunk at each position is the
  document or image chunk of the reference at that position (a remote reference carried
  verbatim), and none of them is a text chunk.
\<close>

theorem question_chunk_first:
  assumes "run w paths q = (Inr a, tr)"
  shows "\<exists>cs tr0. tr = tr0 @ [Chat_complete (request_of (Text q # cs))] \<and> chats tr0 = [] \<and>
           messages (request_of (Text q # cs)) = [\<lparr>role = ''user'', content = Text q # cs\<rparr>] \<and>
           list_all2 (chunk_of w) paths cs \<and> list_all (\<lambda>c. \<not> is_text c) cs"
proof -
  from assms obtain cs tr0 where
    t: "tr = tr0 @ [Chat_complete (request_of (Text q # cs))]" and
    n: "chats tr0 = []" and c: "list_all2 (chunk_of w) paths cs"
    by (rule run_success_shape)
  have "list_all (\<lambda>c. \<not> is_text c) cs"
    unfolding list_all_iff
  proof
    fix x assume "x \<in> set cs"
    then obtain i where "i < length cs" "cs ! i = x" by (auto simp: in_set_conv_nth)
    with c have "chunk_of w (paths ! i) x" by (auto simp: list_all2_conv_all_nth)
    then show "\<not> is_text x" by (rule chunk_of_not_text)
  qed
  with t n c show ?thesis by (auto simp: request_of_def)
qed

theorem question_chunk_first_witness:
  "run demo_env [''https://example.com/b.PNG'', ''./a.pdf''] ''q'' =
     (Inr ''yes'',
      [Open_read ''./a.pdf'', Files_upload ''a.pdf'' ''bytes of ./a.pdf'' ''ocr'',
       Files_get_signed_url ''id+'',
       Chat_complete (request_of [Text ''q'', Image_url ''https://example.com/b.PNG'',
                                  Document_url ''https://s/id+''])]) \<and>
   (\<exists>cs tr0.
      [Open_read ''./a.pdf'', Files_upload ''a.pdf'' ''bytes of ./a.pdf'' ''ocr'',
       Files_get_signed_url ''id+'',
       Chat_complete (request_of [Text ''q'', Image_url ''https://example.com/b.PNG'',
                                  Document_url ''https://s/id+''])]
        = tr0 @ [Chat_complete (request_of (Text ''q'' # cs))] \<and>
      chats tr0 = [] \<and>
      messages (request_of (Text ''q'' # cs)) = [\<lparr>role = ''user'', content = Text ''q'' # cs\<rparr>] \<and>
      list_all2 (chunk_of demo_env) [''https://example.com/b.PNG'', ''./a.pdf''] cs \<and>
      list_all (\<lambda>c. \<not> is_text c) cs)"
proof -
  have r: "run demo_env [''https://example.com/b.PNG'', ''./a.pdf''] ''q'' =
     (Inr ''yes'',
      [Open_read ''./a.pdf'', Files_upload ''a.pdf'' ''bytes of ./a.pdf'' ''ocr'',
       Files_get_signed_url ''id+'',
       Chat_complete (request_of [Text ''q'', Image_url ''https://example.com/b.PNG'',
                                  Document_url ''https://s/id+''])])"
    by (simp add: demo_eval)
  from question_chunk_first [OF r] r show ?thesis by simp
qed

text \<open>
  Claim C6. Every run that returns an answer has made exactly one call to the completion
  endpoint, whatever the size of the batch; it is the last call of the run, and its
  temperature is 0.
\<close>

theorem one_inference_call:
  assumes "run w paths q = (Inr a, tr)"
  shows "\<exists>req. chats tr = [req] \<and> last tr = Chat_complete req \<and> temperature req = 0 \<and>
           model req = ''mistral-medium-latest''"
proof -
  from assms obtain cs tr0 where
    t: "tr = tr0 @ [Chat_complete (request_of (Text q # cs))]" and n: "chats tr0 = []"
    by (rule run_success_shape)
  then show ?thesis by (simp add: chats_append request_of_def)
qed

theorem one_inference_call_witness:
  "run demo_env [''https://example.com/b.PNG'', ''https://example.com/c.pdf''] ''q'' =
     (Inr ''yes'',
      [Chat_complete (request_of [Text ''q'', Image_url ''https://example.com/b.PNG'',
                                  Document_url ''https://example.com/c.pdf''])]) \<and>
   (\<exists>req. chats [Chat_complete (request_of [Text ''q'', Image_url ''https://example.com/b.PNG'',
                                  Document_url ''https://example.com/c.pdf''])] = [req] \<and>
          last [Chat_complete (request_of [Text ''q'', Image_url ''https://example.com/b.PNG'',
                                  Document_url ''https://example.com/c.pdf''])] = Chat_complete req \<and>
          temperature req = 0 \<and> model req = ''mistral-medium-latest'')"
proof -
  have r: "run demo_env [''https://example.com/b.PNG'', ''https://example.com/c.pdf''] ''q'' =
     (Inr ''yes'',
      [Chat_complete (request_of [Text ''q'', Image_url ''https://example.com/b.PNG'',
                                  Document_url ''https://example.com/c.pdf''])])"
    by (simp add: demo_eval)
  from one_inference_call [OF r] r show ?thesis by simp
qed

text \<open>
  Claim C10. Nothing is deduplicated within a run. In a run that returns an answer, the
  files opened are the local references of the batch, in order and with their repetitions;
  each of them has its own upload (under its base name, for OCR) and its own signed-URL
  request; a local reference is opened as often as it occurs in the batch; and the content
  of the one message sent is the question followed by one chunk per reference, the chunk
  at each position being that of the reference at that position.
\<close>

theorem no_deduplication:
  assumes "run w paths q = (Inr a, tr)"
  shows "opened tr = local_paths w paths \<and>
         uploaded tr = map (\<lambda>p. (basename p, ''ocr'')) (local_paths w paths) \<and>
         length (signed tr) = length (local_paths w paths) \<and>
         count_list (opened tr) p = (if is_local w p then count_list paths p else 0) \<and>
         (\<exists>req cs. chats tr = [req] \<and>
                   messages req = [\<lparr>role = ''user'', content = Text q # cs\<rparr>] \<and>
                   length cs = length paths \<and> list_all2 (chunk_of w) paths cs)"
proof -
  from assms obtain cs tr0 where
    l: "loop w paths [Text q] [] = (Inr (Text q # cs), tr0)" and
    t: "tr = tr0 @ [Chat_complete (request_of (Text q # cs))]" and
    n: "chats tr0 = []" and c: "list_all2 (chunk_of w) paths cs"
    by (rule run_success_shape)
  from loop_success_trace [OF l] have
    o: "opened tr0 = local_paths w paths" and
    u: "uploaded tr0 = map (\<lambda>p. (basename p, ''ocr'')) (local_paths w paths)" and
    s: "length (signed tr0) = length (local_paths w paths)"
    by simp_all
  have o': "opened tr = local_paths w paths" using o t by (simp add: opened_append)
  have "count_list (opened tr) p = (if is_local w p then count_list paths p else 0)"
    unfolding o' local_paths_def by (rule count_list_filter)
  moreover have "chats tr = [request_of (Text q # cs)] \<and>
      messages (request_of (Text q # cs)) = [\<lparr>role = ''user'', content = Text q # cs\<rparr>] \<and>
      length cs = length paths \<and> list_all2 (chunk_of w) paths cs"
    using t n c by (simp add: chats_append list_all2_lengthD request_of_def)
  then have "\<exists>req cs. chats tr = [req] \<and>
                   messages req = [\<lparr>role = ''user'', content = Text q # cs\<rparr>] \<and>
                   length cs = length paths \<and> list_all2 (chunk_of w) paths cs"
    by blast
  moreover have "uploaded tr = map (\<lambda>p. (basename p, ''ocr'')) (local_paths w paths)"
    using u t by (simp add: uploaded_append)
  moreover have "length (signed tr) = length (local_paths w paths)"
    using s t by (simp add: signed_append)
  ultimately show ?thesis using o' by blast
qed

theorem no_deduplication_witness:
  "run demo_env [''a.pdf'', ''a.pdf''] ''q'' =
     (Inr ''yes'',
      [Open_read ''a.pdf'', Files_upload ''a.pdf'' ''bytes of a.pdf'' ''ocr'',
       Files_get_signed_url ''id+'',
       Open_read ''a.pdf'', Files_upload ''a.pdf'' ''bytes of a.pdf'' ''ocr'',
       Files_get_signed_url ''id++++'',
       Chat_complete
         \<lparr>model = ''mistral-medium-latest'',
          messages = [\<lparr>role = ''user'',
                       content = [Text ''q'', Document_url ''https://s/id+'',
                                  Document_url ''https://s/id++++'']\<rparr>],
          temperature = 0\<rparr>]) \<and>
   count_list (opened (snd (run demo_env [''a.pdf'', ''a.pdf''] ''q''))) ''a.pdf'' = 2 \<and>
   uploaded (snd (run demo_env [''a.pdf'', ''a.pdf''] ''q'')) =
     [(''a.pdf'', ''ocr''), (''a.pdf'', ''ocr'')] \<and>
   length (signed (snd (run demo_env [''a.pdf'', ''a.pdf''] ''q''))) = 2 \<and>
   (\<exists>req cs. chats (snd (run demo_env [''a.pdf'', ''a.pdf''] ''q'')) = [req] \<and>
             messages req = [\<lparr>role = ''user'', content = Text ''q'' # cs\<rparr>] \<and>
             length cs = 2)"
proof -
  have r: "run demo_env [''a.pdf'', ''a.pdf''] ''q'' =
     (Inr ''yes'',
      [Open_read ''a.pdf'', Files_upload ''a.pdf'' ''bytes of a.pdf'' ''ocr'',
       Files_get_signed_url ''id+'',
       Open_read ''a.pdf'', Files_upload ''a.pdf'' ''bytes of a.pdf'' ''ocr'',
       Files_get_signed_url ''id++++'',
       Chat_complete
         \<lparr>model = ''mistral-medium-latest'',
          messages = [\<lparr>role = ''user'',
                       content = [Text ''q'', Document_url ''https://s/id+'',
                                  Document_url ''https://s/id++++'']\<rparr>],
          temperature = 0\<rparr>])"
    by (simp add: demo_eval request_of_def)
  have l: "is_local demo_env ''a.pdf''"
    by (simp add: is_local_def demo_eval)
  from no_deduplication [OF r, of "''a.pdf''"] l have
    "count_list (opened (snd (run demo_env [''a.pdf'', ''a.pdf''] ''q''))) ''a.pdf'' = 2"
    "uploaded (snd (run demo_env [''a.pdf'', ''a.pdf''] ''q'')) =
       [(''a.pdf'', ''ocr''), (''a.pdf'', ''ocr'')]"
    "length (signed (snd (run demo_env [''a.pdf'', ''a.pdf''] ''q''))) = 2"
    "\<exists>req cs. chats (snd (run demo_env [''a.pdf'', ''a.pdf''] ''q'')) = [req] \<and>
             messages req = [\<lparr>role = ''user'', content = Text ''q'' # cs\<rparr>] \<and>
             length cs = 2"
    unfolding r by (simp_all add: local_paths_def basename_def)
  with r show ?thesis by simp
qed

text \<open>
  Claim C7. In a run that returns an answer, take the reference at any position of the
  batch. It was parsed as a URL. If the scheme is \<open>http\<close> or \<open>https\<close>, handling it made no
  call at all and its chunk carries the reference itself. Otherwise handling it made
  exactly three calls, in this order: one read of the file, one upload of the bytes read
  under the base name of the path with purpose \<open>ocr\<close>, and one signed-URL request for the id
  the upload returned; its chunk carries the URL that this request returned. In both cases
  that chunk stands in the request right after the chunks of the earlier references.
\<close>

theorem origin_decides_calls:
  assumes "run w paths q = (Inr a, tr)" and "i < length paths"
  shows "\<exists>parsed cs tr1 c tr2 rest cs_all.
      urlparse w (paths ! i) = Inr parsed \<and>
      loop w (take i paths) [Text q] [] = (Inr cs, tr1) \<and>
      process_path w tr1 (paths ! i) = (Inr c, tr2) \<and>
      tr = tr2 @ rest \<and>
      chats tr = [request_of cs_all] \<and> cs_all ! Suc i = c \<and>
      (if is_url parsed then tr2 = tr1 \<and> chunk_url c = paths ! i
       else \<exists>file_content file_id.
           open_read w tr1 (paths ! i) = Inr file_content \<and>
           files_upload w (tr1 @ [Open_read (paths ! i)]) (basename (paths ! i)) file_content ''ocr''
             = Inr file_id \<and>
           files_get_signed_url w
             (tr1 @ [Open_read (paths ! i), Files_upload (basename (paths ! i)) file_content ''ocr''])
             file_id = Inr (chunk_url c) \<and>
           tr2 = tr1 @ [Open_read (paths ! i),
                        Files_upload (basename (paths ! i)) file_content ''ocr'',
                        Files_get_signed_url file_id])"
proof -
  from assms(1) obtain cs0 tr0 where
    l: "loop w paths [Text q] [] = (Inr cs0, tr0)" and
    t: "tr = tr0 @ [Chat_complete (request_of cs0)]"
    by (rule run_success)
  from l assms(2) obtain cs1 tr1 c tr2 where
    l1: "loop w (take i paths) [Text q] [] = (Inr cs1, tr1)" and
    s: "process_path w tr1 (paths ! i) = (Inr c, tr2)" and
    l2: "loop w (drop (Suc i) paths) (cs1 @ [c]) tr2 = (Inr cs0, tr0)"
    by (rule loop_split)
  from loop_extends [OF l2] obtain evs where e: "tr0 = tr2 @ evs" ..
  have rest: "tr = tr2 @ (evs @ [Chat_complete (request_of cs0)])" using t e by simp
  from loop_chats [OF l] have "chats tr0 = []" by simp
  then have ch: "chats tr = [request_of cs0]" using t by (simp add: chats_append)
  from loop_success_chunks [OF l1] obtain new1 where
    n1: "cs1 = [Text q] @ new1" "list_all2 (chunk_of w) (take i paths) new1" by blast
  then have "length new1 = i" using assms(2) by (auto dest: list_all2_lengthD)
  then have len: "length cs1 = Suc i" using n1 by simp
  from loop_success_chunks [OF l2] obtain new2 where "cs0 = (cs1 @ [c]) @ new2" by blast
  then have nth: "cs0 ! Suc i = c" using len by (simp add: nth_append)
  from process_path_success [OF s] obtain parsed where
    u: "urlparse w (paths ! i) = Inr parsed" and
    k: "if is_url parsed then tr2 = tr1 \<and> chunk_url c = paths ! i
        else upload_local w tr1 (paths ! i) = (Inr (chunk_url c), tr2)"
    by blast
  have final: "if is_url parsed then tr2 = tr1 \<and> chunk_url c = paths ! i
       else \<exists>file_content file_id.
           open_read w tr1 (paths ! i) = Inr file_content \<and>
           files_upload w (tr1 @ [Open_read (paths ! i)]) (basename (paths ! i)) file_content ''ocr''
             = Inr file_id \<and>
           files_get_signed_url w
             (tr1 @ [Open_read (paths ! i), Files_upload (basename (paths ! i)) file_content ''ocr''])
             file_id = Inr (chunk_url c) \<and>
           tr2 = tr1 @ [Open_read (paths ! i),
                        Files_upload (basename (paths ! i)) file_content ''ocr'',
                        Files_get_signed_url file_id]"
  proof (cases "is_url parsed")
    case True
    with k show ?thesis by simp
  next
    case False
    with k have "upload_local w tr1 (paths ! i) = (Inr (chunk_url c), tr2)" by simp
    from upload_local_success [OF this] False show ?thesis by simp
  qed
  from u l1 s rest ch nth final show ?thesis by blast
qed

theorem origin_decides_calls_witness:
  "run demo_env [''http://h/b.png'', ''a.pdf''] ''q'' =
     (Inr ''yes'',
      [Open_read ''a.pdf'', Files_upload ''a.pdf'' ''bytes of a.pdf'' ''ocr'',
       Files_get_signed_url ''id+'',
       Chat_complete (request_of [Text ''q'', Image_url ''http://h/b.png'',
                                  Document_url ''https://s/id+''])]) \<and>
   (1::nat) < length [''http://h/b.png'', ''a.pdf''] \<and>
   (\<exists>parsed cs tr1 c tr2 rest cs_all.
      urlparse demo_env ([''http://h/b.png'', ''a.pdf''] ! 1) = Inr parsed \<and>
      loop demo_env (take 1 [''http://h/b.png'', ''a.pdf'']) [Text ''q''] [] = (Inr cs, tr1) \<and>
      process_path demo_env tr1 ([''http://h/b.png'', ''a.pdf''] ! 1) = (Inr c, tr2) \<and>
      [Open_read ''a.pdf'', Files_upload ''a.pdf'' ''bytes of a.pdf'' ''ocr'',
       Files_get_signed_url ''id+'',
       Chat_complete (request_of [Text ''q'', Image_url ''http://h/b.png'',
                                  Document_url ''https://s/id+''])] = tr2 @ rest \<and>
      chats [Open_read ''a.pdf'', Files_upload ''a.pdf'' ''bytes of a.pdf'' ''ocr'',
             Files_get_signed_url ''id+'',
             Chat_complete (request_of [Text ''q'', Image_url ''http://h/b.png'',
                                        Document_url ''https://s/id+''])] = [request_of cs_all] \<and>
      cs_all ! Suc 1 = c \<and>
      (if is_url parsed then tr2 = tr1 \<and> chunk_url c = [''http://h/b.png'', ''a.pdf''] ! 1
       else \<exists>file_content file_id.
           open_read demo_env tr1 ([''http://h/b.png'', ''a.pdf''] ! 1) = Inr file_content \<and>
           files_upload demo_env (tr1 @ [Open_read ([''http://h/b.png'', ''a.pdf''] ! 1)])
             (basename ([''http://h/b.png'', ''a.pdf''] ! 1)) file_content ''ocr'' = Inr file_id \<and>
           files_get_signed_url demo_env
             (tr1 @ [Open_read ([''http://h/b.png'', ''a.pdf''] ! 1),
                     Files_upload (basename ([''http://h/b.png'', ''a.pdf''] ! 1)) file_content ''ocr''])
             file_id = Inr (chunk_url c) \<and>
           tr2 = tr1 @ [Open_read ([''http://h/b.png'', ''a.pdf''] ! 1),
                        Files_upload (basename ([''http://h/b.png'', ''a.pdf''] ! 1)) file_content ''ocr'',
                        Files_get_signed_url file_id]))"
proof -
  have r: "run demo_env [''http://h/b.png'', ''a.pdf''] ''q'' =
     (Inr ''yes'',
      [Open_read ''a.pdf'', Files_upload ''a.pdf'' ''bytes of a.pdf'' ''ocr'',
       Files_get_signed_url ''id+'',
       Chat_complete (request_of [Text ''q'', Image_url ''http://h/b.png'',
                                  Document_url ''https://s/id+''])])"
    by (simp add: demo_eval)
  have i: "(1::nat) < length [''http://h/b.png'', ''a.pdf'']" by simp
  from origin_decides_calls [OF r i] r i show ?thesis by blast
qed

text \<open>
  Claim C9. For a reference that parses, the extension compared with the allow-list is the
  lowercased extension of the final component of the path: of the path component of the
  URL for a remote reference, of the reference itself for a local one. A reference without
  extension or with one outside \<open>.pdf\<close>, \<open>.jpg\<close>, \<open>.jpeg\<close>, \<open>.png\<close> is rejected with the
  \<^verbatim>\<open>ValueError\<close> of the unsupported type, before any call for it. A reference with one of
  these four extensions is accepted: a remote one yields its chunk at once, a local one
  yields its chunk as soon as its upload succeeds, and fails only if the upload does. The
  chunk is a document chunk for \<open>.pdf\<close> and an image chunk for \<open>.jpg\<close>, \<open>.jpeg\<close>, \<open>.png\<close>.
\<close>

theorem extension_decides_chunk:
  assumes "urlparse w p = Inr parsed"
  shows "ext_of parsed p =
           lower (snd (splitext (basename (if is_url parsed then path parsed else p)))) \<and>
         (snd (splitext (if is_url parsed then path parsed else p)) = [] \<longrightarrow>
            ext_of parsed p \<notin> {''.pdf'', ''.jpg'', ''.jpeg'', ''.png''}) \<and>
         (ext_of parsed p \<notin> {''.pdf'', ''.jpg'', ''.jpeg'', ''.png''} \<longrightarrow>
            process_path w tr p =
              (Inl (ValueError (unsupported_message w (ext_of parsed p))), tr)) \<and>
         (ext_of parsed p \<in> {''.pdf'', ''.jpg'', ''.jpeg'', ''.png''} \<and> is_url parsed \<longrightarrow>
            process_path w tr p =
              (Inr (if ext_of parsed p = ''.pdf'' then Document_url p else Image_url p), tr)) \<and>
         (ext_of parsed p \<in> {''.pdf'', ''.jpg'', ''.jpeg'', ''.png''} \<and> \<not> is_url parsed \<longrightarrow>
            process_path w tr p =
              (case upload_local w tr p of
                 (Inl e, tr1) \<Rightarrow> (Inl e, tr1)
               | (Inr url_ref, tr1) \<Rightarrow>
                   (Inr (if ext_of parsed p = ''.pdf'' then Document_url url_ref
                         else Image_url url_ref), tr1))) \<and>
         (process_path w tr p = (Inr c, tr') \<longrightarrow>
            ext_of parsed p \<in> {''.pdf'', ''.jpg'', ''.jpeg'', ''.png''} \<and>
            (ext_of parsed p = ''.pdf'' \<longrightarrow> c = Document_url (chunk_url c)) \<and>
            (ext_of parsed p \<in> {''.jpg'', ''.jpeg'', ''.png''} \<longrightarrow> c = Image_url (chunk_url c)))"
proof -
  have s: "supported_extensions = {''.pdf'', ''.jpg'', ''.jpeg'', ''.png''}"
    by (simp add: supported_extensions_def)
  have a: "ext_of parsed p =
           lower (snd (splitext (basename (if is_url parsed then path parsed else p))))"
    by (simp add: ext_of_def splitext_basename)
  have b: "snd (splitext (if is_url parsed then path parsed else p)) = [] \<longrightarrow>
            ext_of parsed p \<notin> {''.pdf'', ''.jpg'', ''.jpeg'', ''.png''}"
    by (auto simp: ext_of_def lower_def)
  have c: "ext_of parsed p \<notin> {''.pdf'', ''.jpg'', ''.jpeg'', ''.png''} \<longrightarrow>
            process_path w tr p =
              (Inl (ValueError (unsupported_message w (ext_of parsed p))), tr)"
    using assms unfolding s [symmetric] by (simp add: process_path_cases)
  have d: "ext_of parsed p \<in> {''.pdf'', ''.jpg'', ''.jpeg'', ''.png''} \<and> is_url parsed \<longrightarrow>
            process_path w tr p =
              (Inr (if ext_of parsed p = ''.pdf'' then Document_url p else Image_url p), tr)"
    using assms unfolding s [symmetric] by (simp add: process_path_cases)
  have e: "ext_of parsed p \<in> {''.pdf'', ''.jpg'', ''.jpeg'', ''.png''} \<and> \<not> is_url parsed \<longrightarrow>
            process_path w tr p =
              (case upload_local w tr p of
                 (Inl e, tr1) \<Rightarrow> (Inl e, tr1)
               | (Inr url_ref, tr1) \<Rightarrow>
                   (Inr (if ext_of parsed p = ''.pdf'' then Document_url url_ref
                         else Image_url url_ref), tr1))"
    using assms unfolding s [symmetric] by (simp add: process_path_cases)
  have f: "process_path w tr p = (Inr c, tr') \<longrightarrow>
            ext_of parsed p \<in> {''.pdf'', ''.jpg'', ''.jpeg'', ''.png''} \<and>
            (ext_of parsed p = ''.pdf'' \<longrightarrow> c = Document_url (chunk_url c)) \<and>
            (ext_of parsed p \<in> {''.jpg'', ''.jpeg'', ''.png''} \<longrightarrow> c = Image_url (chunk_url c))"
  proof
    assume "process_path w tr p = (Inr c, tr')"
    from process_path_success [OF this] assms have
      "ext_of parsed p \<in> supported_extensions"
      "c = (if ext_of parsed p = ''.pdf'' then Document_url (chunk_url c)
            else Image_url (chunk_url c))"
      by auto
    then show "ext_of parsed p \<in> {''.pdf'', ''.jpg'', ''.jpeg'', ''.png''} \<and>
            (ext_of parsed p = ''.pdf'' \<longrightarrow> c = Document_url (chunk_url c)) \<and>
            (ext_of parsed p \<in> {''.jpg'', ''.jpeg'', ''.png''} \<longrightarrow> c = Image_url (chunk_url c))"
      unfolding s by auto
  qed
  from a b c d e f show ?thesis by blast
qed

theorem extension_decides_chunk_witness:
  "urlparse demo_env ''docs.d/SCAN.PDF'' = Inr \<lparr>scheme = [], path = ''docs.d/SCAN.PDF''\<rparr> \<and>
   ext_of \<lparr>scheme = [], path = ''docs.d/SCAN.PDF''\<rparr> ''docs.d/SCAN.PDF'' = ''.pdf'' \<and>
   lower (snd (splitext (basename ''docs.d/SCAN.PDF''))) = ''.pdf'' \<and>
   process_path demo_env [] ''docs.d/SCAN.PDF'' =
     (Inr (Document_url ''https://s/id+''),
      [Open_read ''docs.d/SCAN.PDF'', Files_upload ''SCAN.PDF'' ''bytes of docs.d/SCAN.PDF'' ''ocr'',
       Files_get_signed_url ''id+'']) \<and>
   urlparse demo_env ''https://h/x/B.PNG?v=1.pdf#p.jpg'' = Inr \<lparr>scheme = ''https'', path = ''/x/B.PNG''\<rparr> \<and>
   process_path demo_env [] ''https://h/x/B.PNG?v=1.pdf#p.jpg'' =
     (Inr (Image_url ''https://h/x/B.PNG?v=1.pdf#p.jpg''), []) \<and>
   urlparse demo_env ''http://h/p.Jpg'' = Inr \<lparr>scheme = ''http'', path = ''/p.Jpg''\<rparr> \<and>
   process_path demo_env [] ''http://h/p.Jpg'' = (Inr (Image_url ''http://h/p.Jpg''), []) \<and>
   urlparse demo_env ''s.jpeg'' = Inr \<lparr>scheme = [], path = ''s.jpeg''\<rparr> \<and>
   process_path demo_env [] ''s.jpeg'' =
     (Inr (Image_url ''https://s/id+''),
      [Open_read ''s.jpeg'', Files_upload ''s.jpeg'' ''bytes of s.jpeg'' ''ocr'',
       Files_get_signed_url ''id+'']) \<and>
   urlparse demo_env ''b.xyz'' = Inr \<lparr>scheme = [], path = ''b.xyz''\<rparr> \<and>
   process_path demo_env [] ''b.xyz'' =
     (Inl (ValueError ''Unsupported file type: .xyz. Supported types: .png, .jpg, .pdf, .jpeg''), []) \<and>
   urlparse demo_env ''dir.d/README'' = Inr \<lparr>scheme = [], path = ''dir.d/README''\<rparr> \<and>
   process_path demo_env [] ''dir.d/README'' =
     (Inl (ValueError ''Unsupported file type: . Supported types: .png, .jpg, .pdf, .jpeg''), [])"
proof -
  have u1: "urlparse demo_env ''docs.d/SCAN.PDF'' = Inr \<lparr>scheme = [], path = ''docs.d/SCAN.PDF''\<rparr>"
    by (simp add: demo_eval)
  have u2: "urlparse demo_env ''https://h/x/B.PNG?v=1.pdf#p.jpg'' =
              Inr \<lparr>scheme = ''https'', path = ''/x/B.PNG''\<rparr>"
    by (simp add: demo_eval)
  have u3: "urlparse demo_env ''http://h/p.Jpg'' = Inr \<lparr>scheme = ''http'', path = ''/p.Jpg''\<rparr>"
    by (simp add: demo_eval)
  have u4: "urlparse demo_env ''s.jpeg'' = Inr \<lparr>scheme = [], path = ''s.jpeg''\<rparr>"
    by (simp add: demo_eval)
  have u5: "urlparse demo_env ''b.xyz'' = Inr \<lparr>scheme = [], path = ''b.xyz''\<rparr>"
    by (simp add: demo_eval)
  have u6: "urlparse demo_env ''dir.d/README'' = Inr \<lparr>scheme = [], path = ''dir.d/README''\<rparr>"
    by (simp add: demo_eval)
  have e1: "ext_of \<lparr>scheme = [], path = ''docs.d/SCAN.PDF''\<rparr> ''docs.d/SCAN.PDF'' = ''.pdf''"
    by (simp add: demo_eval)
  have e3: "ext_of \<lparr>scheme = ''http'', path = ''/p.Jpg''\<rparr> ''http://h/p.Jpg'' = ''.jpg''"
    by (simp add: demo_eval)
  have e5: "ext_of \<lparr>scheme = [], path = ''b.xyz''\<rparr> ''b.xyz'' = ''.xyz''"
    by (simp add: demo_eval)
  have e6: "ext_of \<lparr>scheme = [], path = ''dir.d/README''\<rparr> ''dir.d/README'' = []"
    by (simp add: demo_eval)
  have i3: "is_url \<lparr>scheme = ''http'', path = ''/p.Jpg''\<rparr>" by (simp add: is_url_def)
  have p1: "process_path demo_env [] ''docs.d/SCAN.PDF'' =
     (Inr (Document_url ''https://s/id+''),
      [Open_read ''docs.d/SCAN.PDF'', Files_upload ''SCAN.PDF'' ''bytes of docs.d/SCAN.PDF'' ''ocr'',
       Files_get_signed_url ''id+''])"
    by (simp add: demo_eval)
  have p2: "process_path demo_env [] ''https://h/x/B.PNG?v=1.pdf#p.jpg'' =
     (Inr (Image_url ''https://h/x/B.PNG?v=1.pdf#p.jpg''), [])"
    by (simp add: demo_eval)
  have p4: "process_path demo_env [] ''s.jpeg'' =
     (Inr (Image_url ''https://s/id+''),
      [Open_read ''s.jpeg'', Files_upload ''s.jpeg'' ''bytes of s.jpeg'' ''ocr'',
       Files_get_signed_url ''id+''])"
    by (simp add: demo_eval)
  have m: "unsupported_message demo_env ''.xyz'' =
             ''Unsupported file type: .xyz. Supported types: .png, .jpg, .pdf, .jpeg''"
          "unsupported_message demo_env [] =
             ''Unsupported file type: . Supported types: .png, .jpg, .pdf, .jpeg''"
    by (simp_all add: demo_eval)
  from extension_decides_chunk [OF u1] e1
  have l1: "lower (snd (splitext (basename ''docs.d/SCAN.PDF''))) = ''.pdf''"
    by (simp add: is_url_def)
  from extension_decides_chunk [OF u3, of "[]"] e3 i3
  have p3: "process_path demo_env [] ''http://h/p.Jpg'' = (Inr (Image_url ''http://h/p.Jpg''), [])"
    by simp
  from extension_decides_chunk [OF u5, of "[]"] e5 m
  have p5: "process_path demo_env [] ''b.xyz'' =
     (Inl (ValueError ''Unsupported file type: .xyz. Supported types: .png, .jpg, .pdf, .jpeg''), [])"
    by simp
  from extension_decides_chunk [OF u6, of "[]"] e6 m
  have p6: "process_path demo_env [] ''dir.d/README'' =
     (Inl (ValueError ''Unsupported file type: . Supported types: .png, .jpg, .pdf, .jpeg''), [])"
    by simp
  from u1 u2 u3 u4 u5 u6 e1 l1 p1 p2 p3 p4 p5 p6 show ?thesis by simp
qed

text \<open>
  Claim C1, as stated, fails: references are not validated as a batch before the first
  call. With a local PDF before a reference of unsupported type, the PDF has been read,
  uploaded and given a signed URL by the time the run fails.
\<close>

theorem batch_not_validated_first:
  "unsupported demo_env ''b.xyz'' \<and>
   run demo_env [''a.pdf'', ''b.xyz''] ''q'' =
     (Inl (ValueError ''Unsupported file type: .xyz. Supported types: .png, .jpg, .pdf, .jpeg''),
      [Open_read ''a.pdf'', Files_upload ''a.pdf'' ''bytes of a.pdf'' ''ocr'',
       Files_get_signed_url ''id+'']) \<and>
   uploaded (snd (run demo_env [''a.pdf'', ''b.xyz''] ''q'')) = [(''a.pdf'', ''ocr'')] \<and>
   signed (snd (run demo_env [''a.pdf'', ''b.xyz''] ''q'')) = [''id+'']"
  by (simp add: unsupported_def demo_eval)

text \<open>
  Claim C1, amended. A batch that holds a reference with an extension outside the
  allow-list never gets an answer and never reaches the completion endpoint. References
  are checked one at a time, in input order, each right before it is resolved: when the
  key is present and every reference before the offending one resolves, the run fails with
  the \<^verbatim>\<open>ValueError\<close> whose message names the offending extension and lists the four
  supported extensions, each once, in some order; and the files read, the uploads and the
  signed-URL requests made by then are exactly those of the local references before it
  (none when it comes first or after remote URLs only).
\<close>

theorem unsupported_extension_fails:
  "(p \<in> set paths \<and> unsupported w p \<longrightarrow>
      (\<exists>e. fst (run w paths q) = Inl e) \<and> chats (snd (run w paths q)) = []) \<and>
   (getenv w ''MISTRAL_API_KEY'' = Some k \<and> k \<noteq> [] \<and>
    loop w pre [Text q] [] = (Inr cs, tr) \<and>
    urlparse w p = Inr parsed \<and> ext_of parsed p \<notin> {''.pdf'', ''.jpg'', ''.jpeg'', ''.png''} \<longrightarrow>
      (\<exists>allow.
         run w (pre @ p # post) q =
           (Inl (ValueError (''Unsupported file type: '' @ ext_of parsed p @
                             ''. Supported types: '' @ join '', '' allow)), tr) \<and>
         set allow = {''.pdf'', ''.jpg'', ''.jpeg'', ''.png''} \<and> distinct allow) \<and>
      opened tr = local_paths w pre \<and>
      uploaded tr = map (\<lambda>p. (basename p, ''ocr'')) (local_paths w pre) \<and>
      length (signed tr) = length (local_paths w pre) \<and>
      chats tr = [])"
proof -
  have first: "p \<in> set paths \<and> unsupported w p \<longrightarrow>
      (\<exists>e. fst (run w paths q) = Inl e) \<and> chats (snd (run w paths q)) = []"
    using run_fails_on_unsupported by blast
  have second: "(\<exists>allow.
         run w (pre @ p # post) q =
           (Inl (ValueError (''Unsupported file type: '' @ ext_of parsed p @
                             ''. Supported types: '' @ join '', '' allow)), tr) \<and>
         set allow = {''.pdf'', ''.jpg'', ''.jpeg'', ''.png''} \<and> distinct allow) \<and>
      opened tr = local_paths w pre \<and>
      uploaded tr = map (\<lambda>p. (basename p, ''ocr'')) (local_paths w pre) \<and>
      length (signed tr) = length (local_paths w pre) \<and>
      chats tr = []"
    if k: "getenv w ''MISTRAL_API_KEY'' = Some k" "k \<noteq> []"
      and l: "loop w pre [Text q] [] = (Inr cs, tr)"
      and u: "urlparse w p = Inr parsed"
      and x: "ext_of parsed p \<notin> {''.pdf'', ''.jpg'', ''.jpeg'', ''.png''}"
  proof -
    from x have x': "ext_of parsed p \<notin> supported_extensions"
      by (simp add: supported_extensions_def)
    have s: "process_path w tr p = (Inl (ValueError (unsupported_message w (ext_of parsed p))), tr)"
      using u x' by (simp add: process_path_cases)
    have "loop w (pre @ p # post) [Text q] [] =
            (Inl (ValueError (unsupported_message w (ext_of parsed p))), tr)"
      using l s by (simp add: loop_append)
    with run_with_key [OF k, of "pre @ p # post" q]
    have "run w (pre @ p # post) q =
            (Inl (ValueError (unsupported_message w (ext_of parsed p))), tr)"
      by simp
    then have "run w (pre @ p # post) q =
           (Inl (ValueError (''Unsupported file type: '' @ ext_of parsed p @
                             ''. Supported types: '' @ join '', '' (iter_supported w))), tr)"
      by (simp add: unsupported_message_def)
    with iter_supported_allow_list [of w] have msg: "\<exists>allow.
         run w (pre @ p # post) q =
           (Inl (ValueError (''Unsupported file type: '' @ ext_of parsed p @
                             ''. Supported types: '' @ join '', '' allow)), tr) \<and>
         set allow = {''.pdf'', ''.jpg'', ''.jpeg'', ''.png''} \<and> distinct allow"
      by blast
    from loop_chats [OF l] have c: "chats tr = []" by simp
    from loop_success_trace [OF l] have
      "opened tr = local_paths w pre"
      "uploaded tr = map (\<lambda>p. (basename p, ''ocr'')) (local_paths w pre)"
      "length (signed tr) = length (local_paths w pre)"
      by simp_all
    with msg c show ?thesis by blast
  qed
  from first second show ?thesis by blast
qed

theorem unsupported_extension_fails_witness:
  "getenv demo_env ''MISTRAL_API_KEY'' = Some ''sk'' \<and>
   loop demo_env [''a.pdf''] [Text ''q''] [] =
     (Inr [Text ''q'', Document_url ''https://s/id+''],
      [Open_read ''a.pdf'', Files_upload ''a.pdf'' ''bytes of a.pdf'' ''ocr'',
       Files_get_signed_url ''id+'']) \<and>
   urlparse demo_env ''b.xyz'' = Inr \<lparr>scheme = [], path = ''b.xyz''\<rparr> \<and>
   ext_of \<lparr>scheme = [], path = ''b.xyz''\<rparr> ''b.xyz'' = ''.xyz'' \<and>
   unsupported demo_env ''b.xyz'' \<and>
   run demo_env ([''a.pdf''] @ ''b.xyz'' # [''c.png'']) ''q'' =
     (Inl (ValueError ''Unsupported file type: .xyz. Supported types: .png, .jpg, .pdf, .jpeg''),
      [Open_read ''a.pdf'', Files_upload ''a.pdf'' ''bytes of a.pdf'' ''ocr'',
       Files_get_signed_url ''id+'']) \<and>
   (\<exists>allow.
      run demo_env ([''a.pdf''] @ ''b.xyz'' # [''c.png'']) ''q'' =
        (Inl (ValueError (''Unsupported file type: '' @ ''.xyz'' @
                          ''. Supported types: '' @ join '', '' allow)),
         [Open_read ''a.pdf'', Files_upload ''a.pdf'' ''bytes of a.pdf'' ''ocr'',
          Files_get_signed_url ''id+'']) \<and>
      set allow = {''.pdf'', ''.jpg'', ''.jpeg'', ''.png''} \<and> distinct allow) \<and>
   local_paths demo_env [''a.pdf''] = [''a.pdf''] \<and>
   opened [Open_read ''a.pdf'', Files_upload ''a.pdf'' ''bytes of a.pdf'' ''ocr'',
           Files_get_signed_url ''id+''] = [''a.pdf''] \<and>
   chats (snd (run demo_env [''a.pdf'', ''b.xyz'', ''c.png''] ''q'')) = []"
proof -
  have k: "getenv demo_env ''MISTRAL_API_KEY'' = Some ''sk''" by (simp add: demo_env_def)
  have l: "loop demo_env [''a.pdf''] [Text ''q''] [] =
     (Inr [Text ''q'', Document_url ''https://s/id+''],
      [Open_read ''a.pdf'', Files_upload ''a.pdf'' ''bytes of a.pdf'' ''ocr'',
       Files_get_signed_url ''id+''])"
    by (simp add: demo_eval)
  have u: "urlparse demo_env ''b.xyz'' = Inr \<lparr>scheme = [], path = ''b.xyz''\<rparr>"
    by (simp add: demo_eval)
  have e: "ext_of \<lparr>scheme = [], path = ''b.xyz''\<rparr> ''b.xyz'' = ''.xyz''"
    by (simp add: demo_eval)
  have x: "''.xyz'' \<notin> {''.pdf'', ''.jpg'', ''.jpeg'', ''.png''}" by simp
  have n: "unsupported demo_env ''b.xyz''"
    using u e x by (simp add: unsupported_def supported_extensions_def)
  have m: "''b.xyz'' \<in> set [''a.pdf'', ''b.xyz'', ''c.png'']" by simp
  have lp: "local_paths demo_env [''a.pdf''] = [''a.pdf'']"
    by (simp add: local_paths_def is_local_def demo_eval)
  have r: "run demo_env ([''a.pdf''] @ ''b.xyz'' # [''c.png'']) ''q'' =
     (Inl (ValueError ''Unsupported file type: .xyz. Supported types: .png, .jpg, .pdf, .jpeg''),
      [Open_read ''a.pdf'', Files_upload ''a.pdf'' ''bytes of a.pdf'' ''ocr'',
       Files_get_signed_url ''id+''])"
    by (simp add: demo_eval)
  note t = unsupported_extension_fails
    [of "''b.xyz''" "[''a.pdf'', ''b.xyz'', ''c.png'']" demo_env "''q''" "''sk''"
        "[''a.pdf'']" "[Text ''q'', Document_url ''https://s/id+'']"
        "[Open_read ''a.pdf'', Files_upload ''a.pdf'' ''bytes of a.pdf'' ''ocr'',
          Files_get_signed_url ''id+'']"
        "\<lparr>scheme = [], path = ''b.xyz''\<rparr>" "[''c.png'']"]
  from t n m have c: "chats (snd (run demo_env [''a.pdf'', ''b.xyz'', ''c.png''] ''q'')) = []"
    by blast
  from t k l u e x have
    "(\<exists>allow.
      run demo_env ([''a.pdf''] @ ''b.xyz'' # [''c.png'']) ''q'' =
        (Inl (ValueError (''Unsupported file type: '' @ ''.xyz'' @
                          ''. Supported types: '' @ join '', '' allow)),
         [Open_read ''a.pdf'', Files_upload ''a.pdf'' ''bytes of a.pdf'' ''ocr'',
          Files_get_signed_url ''id+'']) \<and>
      set allow = {''.pdf'', ''.jpg'', ''.jpeg'', ''.png''} \<and> distinct allow) \<and>
     opened [Open_read ''a.pdf'', Files_upload ''a.pdf'' ''bytes of a.pdf'' ''ocr'',
           Files_get_signed_url ''id+''] = local_paths demo_env [''a.pdf'']"
    by simp
  with k l u e n lp r c show ?thesis by simp
qed

text \<open>
  Claim C2, at the empty batch. The schema bounds \<^verbatim>\<open>paths\<close> from above only, so the empty
  list passes validation; with a key present the loop has nothing to do and the tool sends
  the request with the question alone: one inference call is made, and its first choice
  is returned.
\<close>

theorem empty_batch_reaches_inference:
  assumes "getenv w ''MISTRAL_API_KEY'' = Some k" and "k \<noteq> []"
  shows "PDFQAToolInput [] q = Inr ([], q) \<and>
         snd (answer w [] q) = [Chat_complete (request_of [Text q])] \<and>
         (\<forall>a rest. chat_complete w [] (request_of [Text q]) = Inr \<lparr>choices = a # rest\<rparr> \<longrightarrow>
            answer w [] q = (Inr a, [Chat_complete (request_of [Text q])]))"
proof -
  have a: "answer w [] q = run w [] q" by (simp add: answer_within_schema)
  note r = run_with_key [OF assms, of "[]" q]
  have t: "snd (run w [] q) = [Chat_complete (request_of [Text q])]"
  proof (cases "chat_complete w [] (request_of [Text q])")
    case (Inl e)
    with r show ?thesis by simp
  next
    case (Inr resp)
    with r show ?thesis by (cases "choices resp") simp_all
  qed
  have "\<forall>a rest. chat_complete w [] (request_of [Text q]) = Inr \<lparr>choices = a # rest\<rparr> \<longrightarrow>
            run w [] q = (Inr a, [Chat_complete (request_of [Text q])])"
    using r by simp
  with a t show ?thesis by (simp add: PDFQAToolInput_def)
qed

theorem empty_batch_reaches_inference_witness:
  "getenv demo_env ''MISTRAL_API_KEY'' = Some ''sk'' \<and>
   answer demo_env [] ''q'' = (Inr ''yes'', [Chat_complete (request_of [Text ''q''])])"
proof -
  have k: "getenv demo_env ''MISTRAL_API_KEY'' = Some ''sk''" by (simp add: demo_env_def)
  have n: "''sk'' \<noteq> []" by simp
  have c: "chat_complete demo_env [] (request_of [Text ''q'']) = Inr \<lparr>choices = ''yes'' # [''no'']\<rparr>"
    by (simp add: demo_env_def)
  from empty_batch_reaches_inference [OF k n, of "''q''"] c k show ?thesis by blast
qed

text \<open>
  Claim C3, as stated, fails: in an environment without the key, building the tool
  succeeds.
\<close>

theorem construction_without_key_succeeds:
  "getenv no_key_env ''MISTRAL_API_KEY'' = None \<and> \<not> isl (PDFQATool_init no_key_env)"
  by (simp add: no_key_env_def demo_env_def PDFQATool_init_def)

text \<open>
  Claim C3, amended. Building the tool succeeds in every environment; the key is looked up
  by each call of \<^verbatim>\<open>_run\<close>, and a call made without the key fails with the \<^verbatim>\<open>ValueError\<close> of
  the missing key before anything else happens.
\<close>

theorem key_checked_at_call_time:
  "\<not> isl (PDFQATool_init w) \<and>
   (getenv w ''MISTRAL_API_KEY'' = None \<or> getenv w ''MISTRAL_API_KEY'' = Some [] \<longrightarrow>
      run w paths q = (Inl (ValueError ''MISTRAL_API_KEY must be set in the environment''), []))"
  using run_without_key [of w paths q]
  by (simp add: PDFQATool_init_def missing_key_message_def)

theorem key_checked_at_call_time_witness:
  "getenv no_key_env ''MISTRAL_API_KEY'' = None \<and>
   \<not> isl (PDFQATool_init no_key_env) \<and>
   run no_key_env [''a.pdf''] ''q'' =
     (Inl (ValueError ''MISTRAL_API_KEY must be set in the environment''), [])"
proof -
  have k: "getenv no_key_env ''MISTRAL_API_KEY'' = None"
    by (simp add: no_key_env_def demo_env_def)
  from key_checked_at_call_time [of no_key_env "[''a.pdf'']" "''q''"] k show ?thesis by simp
qed

text \<open>
  Claim C8, as stated, fails: when the endpoint answers with no choice, the run ends with
  the \<^verbatim>\<open>IndexError\<close> of the access to the first choice, not with an error of the provider.
\<close>

theorem empty_choices_raise_index_error:
  "chat_complete no_choice_env [] (request_of [Text ''q'', Document_url ''http://h/a.pdf''])
     = Inr \<lparr>choices = []\<rparr> \<and>
   run no_choice_env [''http://h/a.pdf''] ''q'' =
     (Inl (IndexError ''list index out of range''),
      [Chat_complete (request_of [Text ''q'', Document_url ''http://h/a.pdf''])])"
  by (simp add: no_choice_env_def demo_eval)

text \<open>
  Claim C8, amended. When the key is present and the loop has resolved every reference:
  if the completion call returns at least one choice, the run returns the content of the
  first one unchanged; if the completion call raises, the run ends with that same
  exception, as the provider's client raised it.
\<close>

theorem first_choice_or_provider_error:
  assumes "getenv w ''MISTRAL_API_KEY'' = Some k" and "k \<noteq> []"
    and "loop w paths [Text q] [] = (Inr cs, tr)"
  shows "(chat_complete w tr (request_of cs) = Inr resp \<and> choices resp = c # rest \<longrightarrow>
            run w paths q = (Inr c, tr @ [Chat_complete (request_of cs)])) \<and>
         (chat_complete w tr (request_of cs) = Inl e \<longrightarrow>
            run w paths q = (Inl e, tr @ [Chat_complete (request_of cs)]))"
  using run_with_key [OF assms(1,2), of paths q] assms(3) by simp

theorem first_choice_or_provider_error_witness:
  "run demo_env [''http://h/a.pdf''] ''q'' =
     (Inr ''yes'', [Chat_complete (request_of [Text ''q'', Document_url ''http://h/a.pdf''])]) \<and>
   run failing_chat_env [''http://h/a.pdf''] ''q'' =
     (Inl (SDKError ''429 rate limit''),
      [Chat_complete (request_of [Text ''q'', Document_url ''http://h/a.pdf''])])"
proof -
  have k1: "getenv demo_env ''MISTRAL_API_KEY'' = Some ''sk''" by (simp add: demo_env_def)
  have k2: "getenv failing_chat_env ''MISTRAL_API_KEY'' = Some ''sk''"
    by (simp add: failing_chat_env_def demo_env_def)
  have n: "''sk'' \<noteq> []" by simp
  have l1: "loop demo_env [''http://h/a.pdf''] [Text ''q''] [] =
              (Inr [Text ''q'', Document_url ''http://h/a.pdf''], [])"
    by (simp add: demo_eval)
  have l2: "loop failing_chat_env [''http://h/a.pdf''] [Text ''q''] [] =
              (Inr [Text ''q'', Document_url ''http://h/a.pdf''], [])"
    by (simp add: failing_chat_env_def demo_eval)
  have c1: "chat_complete demo_env [] (request_of [Text ''q'', Document_url ''http://h/a.pdf''])
              = Inr \<lparr>choices = [''yes'', ''no'']\<rparr>"
    by (simp add: demo_env_def)
  have c2: "chat_complete failing_chat_env [] (request_of [Text ''q'', Document_url ''http://h/a.pdf''])
              = Inl (SDKError ''429 rate limit'')"
    by (simp add: failing_chat_env_def demo_env_def)
  from first_choice_or_provider_error
         [OF k1 n l1, of "\<lparr>choices = [''yes'', ''no'']\<rparr>" "''yes''" "[''no'']"] c1
  have a: "run demo_env [''http://h/a.pdf''] ''q'' =
     (Inr ''yes'', [Chat_complete (request_of [Text ''q'', Document_url ''http://h/a.pdf''])])"
    by simp
  from first_choice_or_provider_error [OF k2 n l2, of _ _ _ "SDKError ''429 rate limit''"] c2
  have b: "run failing_chat_env [''http://h/a.pdf''] ''q'' =
     (Inl (SDKError ''429 rate limit''),
      [Chat_complete (request_of [Text ''q'', Document_url ''http://h/a.pdf''])])"
    by simp
  from a b show ?thesis by simp
qed

end
